theory Spec2Isabelle
  imports Main
begin

section \<open>Data model\<close>

text \<open>
  Modelled from the spec: the type declarations \<^verbatim>\<open>MatchPrediction\<close> and \<^verbatim>\<open>ValueBet\<close>
  of \<^verbatim>\<open>@/types\<close> and the result type of \<^verbatim>\<open>runPrediction\<close> are imported by
  \<^verbatim>\<open>PredictionsView.tsx\<close> but are not part of the sources. The records below carry the
  fields that the view reads and writes, with the shapes of section 3 and section 6 of
  the specification. JavaScript numbers are a type parameter \<open>'n\<close> (the view only writes
  the literal \<open>0\<close> and adds two of them), the parts of a pattern and of a bet that the view
  never looks at are a type parameter \<open>'x\<close>. An optional field is an \<open>option\<close>.
  Isabelle has one name space for record fields, so a field whose name is taken already
  gets a prefix.
\<close>

record 'n match =
  match_id :: "string option"      \<comment> \<open>\<^verbatim>\<open>match.id\<close>, optional\<close>
  date :: string
  home_team :: string
  away_team :: string
  home_score :: 'n
  away_score :: 'n
  ht_home_score :: 'n
  ht_away_score :: 'n

record 'x pattern =
  pattern_type :: string           \<comment> \<open>\<^verbatim>\<open>pattern.type\<close>\<close>
  pattern_rest :: 'x

record 'x valueBet =
  matchId :: string
  pattern :: "'x pattern"
  bet_rest :: 'x

datatype predicted_result = home_win | draw | away_win

record 'n predicted_score =
  home :: 'n
  away :: 'n

record 'n head_to_head =
  homeTeam :: string
  awayTeam :: string
  totalMatches :: 'n
  homeWins :: 'n
  draws :: 'n
  awayWins :: 'n
  homeGoals :: 'n
  awayGoals :: 'n
  bothTeamsScored :: 'n
  avgTotalGoals :: 'n
  htftReversals :: 'n

record ('n, 'x) matchPrediction =
  match :: "'n match"
  predictedResult :: predicted_result
  confidenceLevel :: 'n
  predictedScore :: "'n predicted_score"
  patterns :: "'x pattern list"
  valueBets :: "'x valueBet list option"     \<comment> \<open>optional: \<open>None\<close> is \<^verbatim>\<open>undefined\<close>\<close>
  htftAnalysis :: "'x list"
  headToHead :: "'n head_to_head"

text \<open>The object returned by \<^verbatim>\<open>runPrediction\<close>.\<close>

record 'n poisson_prediction =
  poisson_homeGoals :: 'n
  poisson_awayGoals :: 'n

record 'n model_predictions =
  poisson :: "'n poisson_prediction"

record ('n, 'x) advancedPrediction =
  predictedWinner :: "string option"          \<comment> \<open>\<open>None\<close>: the field is absent\<close>
  confidence :: 'n
  modelPredictions :: "'n model_predictions"
  ap_patterns :: "'x pattern list"            \<comment> \<open>\<^verbatim>\<open>advancedPrediction.patterns\<close>\<close>
  homeExpectedGoals :: 'n
  awayExpectedGoals :: 'n

text \<open>
  The state of the view: the two \<^verbatim>\<open>useState\<close> cells and the notifications that
  \<^verbatim>\<open>toast.success\<close> has shown, oldest first.
\<close>

record ('n, 'x) view_state =
  savedPredictions :: "('n, 'x) matchPrediction list"
  valueBets_state :: "'x valueBet list"       \<comment> \<open>the state cell \<^verbatim>\<open>valueBets\<close>\<close>
  toasts :: "string list"

definition initial_state :: "('n, 'x) view_state" where
  "initial_state = \<lparr>savedPredictions = [], valueBets_state = [], toasts = []\<rparr>"

section \<open>The handlers of PredictionsView\<close>

subsection \<open>handleSavePrediction\<close>

text \<open>\<^verbatim>\<open>Array.prototype.findIndex\<close>: the first index whose element satisfies the
  predicate, \<open>-1\<close> when there is none.\<close>

fun findIndex_from :: "int \<Rightarrow> ('a \<Rightarrow> bool) \<Rightarrow> 'a list \<Rightarrow> int" where
  "findIndex_from i P [] = - 1"
| "findIndex_from i P (x # xs) = (if P x then i else findIndex_from (i + 1) P xs)"

definition findIndex :: "('a \<Rightarrow> bool) \<Rightarrow> 'a list \<Rightarrow> int" where
  "findIndex P xs = findIndex_from 0 P xs"

definition same_fixture ::
  "('n, 'x) matchPrediction \<Rightarrow> ('n, 'x) matchPrediction \<Rightarrow> bool" where
  "same_fixture prediction p \<longleftrightarrow>
     home_team (match p) = home_team (match prediction) \<and>
     away_team (match p) = away_team (match prediction)"

definition handleSavePrediction ::
  "('n, 'x) matchPrediction \<Rightarrow> ('n, 'x) view_state \<Rightarrow> ('n, 'x) view_state" where
  "handleSavePrediction prediction st =
     (let prev = savedPredictions st;
          existingIndex = findIndex (same_fixture prediction) prev
      in if existingIndex \<ge> 0
         then st\<lparr>savedPredictions := prev[nat existingIndex := prediction]\<rparr>
         else st\<lparr>savedPredictions := prev @ [prediction],
                 toasts := toasts st @ [''Prediction saved successfully!'']\<rparr>)"

subsection \<open>handleSaveValueBet\<close>

text \<open>The template literal of line 70.\<close>

definition fallback_key :: "'n match \<Rightarrow> string" where
  "fallback_key m = home_team m @ ''-'' @ away_team m @ ''-'' @ date m"

text \<open>The condition of lines 69 and 70. An absent \<^verbatim>\<open>match.id\<close> is \<^verbatim>\<open>undefined\<close>, which
  is not \<^verbatim>\<open>===\<close> to any string.\<close>

definition resolves :: "('n, 'x) matchPrediction \<Rightarrow> 'x valueBet \<Rightarrow> bool" where
  "resolves prediction bet \<longleftrightarrow>
     match_id (match prediction) = Some (matchId bet) \<or>
     fallback_key (match prediction) = matchId bet"

text \<open>\<^verbatim>\<open>prediction.valueBets || []\<close>\<close>

definition valueBets_or_empty :: "('n, 'x) matchPrediction \<Rightarrow> 'x valueBet list" where
  "valueBets_or_empty prediction =
     (case valueBets prediction of None \<Rightarrow> [] | Some vs \<Rightarrow> vs)"

definition attach :: "'x valueBet \<Rightarrow> ('n, 'x) matchPrediction \<Rightarrow> ('n, 'x) matchPrediction" where
  "attach bet prediction =
     (if resolves prediction bet
      then prediction\<lparr>valueBets := Some (valueBets_or_empty prediction @ [bet])\<rparr>
      else prediction)"

text \<open>
  The handler is a closure of one render: the test \<^verbatim>\<open>savedPredictions.length > 0\<close> reads
  the list \<open>rendered\<close> that this render has seen, the two updater functions run on the
  cells as they are.
\<close>

definition handleSaveValueBet ::
  "('n, 'x) matchPrediction list \<Rightarrow> 'x valueBet \<Rightarrow> ('n, 'x) view_state \<Rightarrow> ('n, 'x) view_state" where
  "handleSaveValueBet rendered bet st =
     (let st1 = st\<lparr>valueBets_state := valueBets_state st @ [bet]\<rparr>
      in if length rendered > 0
         then st1\<lparr>savedPredictions := map (attach bet) (savedPredictions st1)\<rparr>
         else st1)"

subsection \<open>handleUpdateValueBet\<close>

definition same_key :: "'x valueBet \<Rightarrow> 'x valueBet \<Rightarrow> bool" where
  "same_key updatedBet bet \<longleftrightarrow>
     matchId bet = matchId updatedBet \<and>
     pattern_type (pattern bet) = pattern_type (pattern updatedBet)"

definition replace_bet :: "'x valueBet \<Rightarrow> 'x valueBet \<Rightarrow> 'x valueBet" where
  "replace_bet updatedBet bet = (if same_key updatedBet bet then updatedBet else bet)"

definition reattach :: "'x valueBet \<Rightarrow> ('n, 'x) matchPrediction \<Rightarrow> ('n, 'x) matchPrediction" where
  "reattach updatedBet prediction =
     (case valueBets prediction of
        None \<Rightarrow> prediction
      | Some vs \<Rightarrow>
          let hasBet = list_ex (same_key updatedBet) vs
          in if hasBet
             then prediction\<lparr>valueBets := Some (map (replace_bet updatedBet) vs)\<rparr>
             else prediction)"

definition handleUpdateValueBet ::
  "'x valueBet \<Rightarrow> ('n, 'x) view_state \<Rightarrow> ('n, 'x) view_state" where
  "handleUpdateValueBet updatedBet st =
     (let st1 = st\<lparr>valueBets_state := map (replace_bet updatedBet) (valueBets_state st)\<rparr>
      in st1\<lparr>savedPredictions := map (reattach updatedBet) (savedPredictions st1)\<rparr>)"

subsection \<open>generateAdvancedPrediction\<close>

text \<open>
  The collaborator \<^verbatim>\<open>runPrediction\<close>, the matches of the league and the instant
  \<^verbatim>\<open>new Date().toISOString()\<close> are parameters. \<open>None\<close> is the returned \<^verbatim>\<open>null\<close>; a string
  is falsy exactly when it is empty.
\<close>

definition generateAdvancedPrediction ::
  "(string \<Rightarrow> string \<Rightarrow> 'm \<Rightarrow> ('n::{zero,plus}, 'x) advancedPrediction) \<Rightarrow> 'm \<Rightarrow> string \<Rightarrow>
     string \<Rightarrow> string \<Rightarrow> ('n, 'x) matchPrediction option" where
  "generateAdvancedPrediction runPrediction currentMatches now homeTeam' awayTeam' =
     (if homeTeam' = [] \<or> awayTeam' = [] then None
      else
        let advanced = runPrediction homeTeam' awayTeam' currentMatches;
            match' = \<lparr>match_id = None, date = now,
                      home_team = homeTeam', away_team = awayTeam',
                      home_score = 0, away_score = 0,
                      ht_home_score = 0, ht_away_score = 0\<rparr>;
            predictedResult' =
              (if predictedWinner advanced = Some ''home'' then home_win
               else if predictedWinner advanced = Some ''away'' then away_win
               else draw)
        in Some \<lparr>match = match',
                 predictedResult = predictedResult',
                 confidenceLevel = confidence advanced,
                 predictedScore =
                   \<lparr>home = poisson_homeGoals (poisson (modelPredictions advanced)),
                    away = poisson_awayGoals (poisson (modelPredictions advanced))\<rparr>,
                 patterns = ap_patterns advanced,
                 valueBets = None,
                 htftAnalysis = [],
                 headToHead =
                   \<lparr>homeTeam = homeTeam', awayTeam = awayTeam',
                    totalMatches = 0, homeWins = 0, draws = 0, awayWins = 0,
                    homeGoals = 0, awayGoals = 0, bothTeamsScored = 0,
                    avgTotalGoals = homeExpectedGoals advanced + awayExpectedGoals advanced,
                    htftReversals = 0\<rparr>\<rparr>)"

subsection \<open>The operations the view exposes\<close>

text \<open>
  Events are handled one at a time and the view renders again after each one, so the
  handler that serves an event is the closure of the current state.
\<close>

definition save :: "('n, 'x) matchPrediction \<Rightarrow> ('n, 'x) view_state \<Rightarrow> ('n, 'x) view_state" where
  "save prediction st = handleSavePrediction prediction st"

definition saveValueBet :: "'x valueBet \<Rightarrow> ('n, 'x) view_state \<Rightarrow> ('n, 'x) view_state" where
  "saveValueBet bet st = handleSaveValueBet (savedPredictions st) bet st"

definition updateValueBet :: "'x valueBet \<Rightarrow> ('n, 'x) view_state \<Rightarrow> ('n, 'x) view_state" where
  "updateValueBet bet st = handleUpdateValueBet bet st"

datatype ('n, 'x) event =
  SavePrediction "('n, 'x) matchPrediction"
| SaveValueBet "'x valueBet"

fun step :: "('n, 'x) event \<Rightarrow> ('n, 'x) view_state \<Rightarrow> ('n, 'x) view_state" where
  "step (SavePrediction p) st = save p st"
| "step (SaveValueBet b) st = saveValueBet b st"

fun run :: "('n, 'x) event list \<Rightarrow> ('n, 'x) view_state \<Rightarrow> ('n, 'x) view_state" where
  "run [] st = st"
| "run (e # es) st = run es (step e st)"

section \<open>Notions of the specification\<close>

text \<open>The identity of a fixture in the Prediction Store: the pair of team names.\<close>

definition has_pair :: "string \<Rightarrow> string \<Rightarrow> ('n, 'x) matchPrediction \<Rightarrow> bool" where
  "has_pair h a q \<longleftrightarrow> home_team (match q) = h \<and> away_team (match q) = a"

text \<open>The identity of a bet for updates: the pair of match id and pattern type.\<close>

definition bet_key :: "'x valueBet \<Rightarrow> string \<times> string" where
  "bet_key bet = (matchId bet, pattern_type (pattern bet))"

text \<open>
  Propagation completeness of a state: every bet of the Value-Bet Store that resolves to
  a stored prediction is among that prediction's embedded bets, and exactly one embedded
  bet has its key.
\<close>

definition propagated :: "('n, 'x) view_state \<Rightarrow> bool" where
  "propagated st \<longleftrightarrow>
     (\<forall>p \<in> set (savedPredictions st). \<forall>b \<in> set (valueBets_state st).
        resolves p b \<longrightarrow>
          b \<in> set (valueBets_or_empty p) \<and>
          length (filter (same_key b) (valueBets_or_empty p)) = 1)"

text \<open>
  The sequences of events on which propagation is complete; \<open>seen\<close> are the bets added so
  far. A saved prediction carries no bets of its own and resolves to none of the bets
  added before it, and an added bet has a key that no earlier bet has.
\<close>

fun admissible :: "'x valueBet list \<Rightarrow> ('n, 'x) event list \<Rightarrow> bool" where
  "admissible seen [] = True"
| "admissible seen (SavePrediction p # es) =
     (valueBets_or_empty p = [] \<and> (\<forall>b \<in> set seen. \<not> resolves p b) \<and> admissible seen es)"
| "admissible seen (SaveValueBet b # es) =
     ((\<forall>e \<in> set seen. \<not> same_key b e) \<and> admissible (seen @ [b]) es)"

text \<open>Two prediction records that agree on every field but \<open>valueBets\<close>.\<close>

definition same_but_valueBets ::
  "('n, 'x) matchPrediction \<Rightarrow> ('n, 'x) matchPrediction \<Rightarrow> bool" where
  "same_but_valueBets p q \<longleftrightarrow>
     match p = match q \<and> predictedResult p = predictedResult q \<and>
     confidenceLevel p = confidenceLevel q \<and> predictedScore p = predictedScore q \<and>
     patterns p = patterns q \<and> htftAnalysis p = htftAnalysis q \<and>
     headToHead p = headToHead q"

subsection \<open>Concrete records\<close>

definition ex_match :: "string option \<Rightarrow> string \<Rightarrow> string \<Rightarrow> string \<Rightarrow> int match" where
  "ex_match i h a d =
     \<lparr>match_id = i, date = d, home_team = h, away_team = a,
      home_score = 0, away_score = 0, ht_home_score = 0, ht_away_score = 0\<rparr>"

definition ex_prediction ::
  "int match \<Rightarrow> int \<Rightarrow> nat valueBet list option \<Rightarrow> (int, nat) matchPrediction" where
  "ex_prediction m c vs =
     \<lparr>match = m, predictedResult = draw, confidenceLevel = c,
      predictedScore = \<lparr>home = 1, away = 1\<rparr>, patterns = [], valueBets = vs,
      htftAnalysis = [],
      headToHead =
        \<lparr>homeTeam = home_team m, awayTeam = away_team m, totalMatches = 0, homeWins = 0,
         draws = 0, awayWins = 0, homeGoals = 0, awayGoals = 0, bothTeamsScored = 0,
         avgTotalGoals = 2, htftReversals = 0\<rparr>\<rparr>"

definition ex_bet :: "string \<Rightarrow> string \<Rightarrow> nat \<Rightarrow> nat valueBet" where
  "ex_bet mid ty odds =
     \<lparr>matchId = mid, pattern = \<lparr>pattern_type = ty, pattern_rest = 0\<rparr>, bet_rest = odds\<rparr>"

definition ex_output :: "string option \<Rightarrow> (int, nat) advancedPrediction" where
  "ex_output w =
     \<lparr>predictedWinner = w, confidence = 70,
      modelPredictions = \<lparr>poisson = \<lparr>poisson_homeGoals = 2, poisson_awayGoals = 1\<rparr>\<rparr>,
      ap_patterns = [], homeExpectedGoals = 2, awayExpectedGoals = 1\<rparr>"

definition p_ab :: "(int, nat) matchPrediction" where
  "p_ab = ex_prediction (ex_match None ''A'' ''B'' ''2024-01-01'') 50 None"

definition p_ab_later :: "(int, nat) matchPrediction" where
  "p_ab_later = ex_prediction (ex_match None ''A'' ''B'' ''2024-02-02'') 60 None"

definition p_cd :: "(int, nat) matchPrediction" where
  "p_cd = ex_prediction (ex_match (Some ''m7'') ''C'' ''D'' ''2024-01-01'') 40 None"

definition p_noname :: "(int, nat) matchPrediction" where
  "p_noname = ex_prediction (ex_match None [] ''E'' ''2024-01-01'') 10 None"

definition two_predictions :: "(int, nat) view_state" where
  "two_predictions = \<lparr>savedPredictions = [p_ab, p_cd], valueBets_state = [], toasts = []\<rparr>"

definition p_xy :: "(int, nat) matchPrediction" where
  "p_xy = ex_prediction (ex_match (Some ''A-B-2024-01-01'') ''X'' ''Y'' ''2024-03-03'') 30 None"

definition bet_ab :: "nat valueBet" where
  "bet_ab = ex_bet ''A-B-2024-01-01'' ''over_2_5'' 2"

definition bet_ab_dup :: "nat valueBet" where
  "bet_ab_dup = ex_bet ''A-B-2024-01-01'' ''over_2_5'' 5"

definition bet_ab_updated :: "nat valueBet" where
  "bet_ab_updated = ex_bet ''A-B-2024-01-01'' ''over_2_5'' 3"

definition bet_m7 :: "nat valueBet" where
  "bet_m7 = ex_bet ''m7'' ''btts'' 4"

definition bet_unknown :: "nat valueBet" where
  "bet_unknown = ex_bet ''Q-R-2024-01-01'' ''btts'' 9"

text \<open>A reachable state in which two bets of the Value-Bet Store have one key.\<close>

definition duplicate_key_state :: "(int, nat) view_state" where
  "duplicate_key_state =
     run [SavePrediction p_ab, SaveValueBet bet_ab, SaveValueBet bet_ab_dup, SaveValueBet bet_m7]
       initial_state"

subsection \<open>The invariant behind propagation completeness\<close>

text \<open>
  The keys of the Value-Bet Store are pairwise different, the embedded bets of every
  prediction are bets of the store without repetition, and every bet of the store that
  resolves to a prediction is embedded in it.
\<close>

definition attached_invariant :: "('n, 'x) view_state \<Rightarrow> bool" where
  "attached_invariant st \<longleftrightarrow>
     distinct (map bet_key (valueBets_state st)) \<and>
     (\<forall>p \<in> set (savedPredictions st).
        set (valueBets_or_empty p) \<subseteq> set (valueBets_state st) \<and>
        distinct (valueBets_or_empty p) \<and>
        (\<forall>b \<in> set (valueBets_state st). resolves p b \<longrightarrow> b \<in> set (valueBets_or_empty p)))"

section \<open>Evaluation on concrete records\<close>

lemmas ex_defs = ex_prediction_def ex_match_def ex_bet_def p_ab_def p_ab_later_def p_cd_def
  p_noname_def two_predictions_def

lemmas op_defs = save_def handleSavePrediction_def findIndex_def same_fixture_def Let_def
  saveValueBet_def handleSaveValueBet_def attach_def resolves_def fallback_key_def
  valueBets_or_empty_def updateValueBet_def handleUpdateValueBet_def reattach_def
  replace_bet_def same_key_def initial_state_def has_pair_def

lemmas ex_defs2 = p_xy_def bet_ab_def bet_ab_dup_def bet_ab_updated_def bet_m7_def
  bet_unknown_def duplicate_key_state_def

section \<open>The prediction adapter\<close>

text \<open>
  C8. For non-empty team names the adapter returns a record whose \<open>predictedResult\<close> is
  \<open>home_win\<close> when the model's winner is "home", \<open>away_win\<close> when it is "away", and \<open>draw\<close> for
  every other winner value, the absent one included: the mapping is total and the adapter
  has no failing branch.
\<close>

theorem adapter_winner_mapping:
  assumes "homeTeam' \<noteq> []" and "awayTeam' \<noteq> []"
  shows "\<exists>p. generateAdvancedPrediction runPrediction currentMatches now homeTeam' awayTeam' = Some p \<and>
           (predictedWinner (runPrediction homeTeam' awayTeam' currentMatches) = Some ''home''
              \<longrightarrow> predictedResult p = home_win) \<and>
           (predictedWinner (runPrediction homeTeam' awayTeam' currentMatches) = Some ''away''
              \<longrightarrow> predictedResult p = away_win) \<and>
           (predictedWinner (runPrediction homeTeam' awayTeam' currentMatches) \<noteq> Some ''home'' \<and>
            predictedWinner (runPrediction homeTeam' awayTeam' currentMatches) \<noteq> Some ''away''
              \<longrightarrow> predictedResult p = draw)"
  using assms by (simp add: generateAdvancedPrediction_def Let_def)

theorem adapter_winner_mapping_witness:
  "map (\<lambda>w. map_option predictedResult
             (generateAdvancedPrediction (\<lambda>h a m. ex_output w) () ''2024-01-01'' ''Team A'' ''Team B''))
     [Some ''home'', Some ''away'', Some ''draw'', Some ''Home'', Some '''', None]
   = [Some home_win, Some away_win, Some draw, Some draw, Some draw, Some draw]"
  using adapter_winner_mapping [of "''Team A''" "''Team B''" "\<lambda>h a m. ex_output (Some ''home'')" "()" "''2024-01-01''"]
        adapter_winner_mapping [of "''Team A''" "''Team B''" "\<lambda>h a m. ex_output (Some ''away'')" "()" "''2024-01-01''"]
        adapter_winner_mapping [of "''Team A''" "''Team B''" "\<lambda>h a m. ex_output (Some ''draw'')" "()" "''2024-01-01''"]
        adapter_winner_mapping [of "''Team A''" "''Team B''" "\<lambda>h a m. ex_output (Some ''Home'')" "()" "''2024-01-01''"]
        adapter_winner_mapping [of "''Team A''" "''Team B''" "\<lambda>h a m. ex_output (Some '''')" "()" "''2024-01-01''"]
        adapter_winner_mapping [of "''Team A''" "''Team B''" "\<lambda>h a m. ex_output None" "()" "''2024-01-01''"]
  by (auto simp add: ex_output_def)

text \<open>
  C9. With an empty home team name or an empty away team name the adapter returns the
  null case, whatever the model returns; with two non-empty names it returns a record.
\<close>

theorem adapter_empty_input:
  "generateAdvancedPrediction runPrediction currentMatches now [] awayTeam' = None \<and>
   generateAdvancedPrediction runPrediction currentMatches now homeTeam' [] = None \<and>
   (homeTeam' \<noteq> [] \<and> awayTeam' \<noteq> [] \<longrightarrow>
      generateAdvancedPrediction runPrediction currentMatches now homeTeam' awayTeam' \<noteq> None)"
  by (simp add: generateAdvancedPrediction_def Let_def)

theorem adapter_empty_input_witness:
  "generateAdvancedPrediction (\<lambda>h a m. ex_output (Some ''home'')) () ''2024-01-01'' '''' ''Team B'' = None \<and>
   generateAdvancedPrediction (\<lambda>h a m. ex_output (Some ''home'')) () ''2024-01-01'' ''Team A'' '''' = None \<and>
   generateAdvancedPrediction (\<lambda>h a m. ex_output (Some ''home'')) () ''2024-01-01'' ''Team A'' ''Team B'' \<noteq> None"
  using adapter_empty_input [of "\<lambda>h a m. ex_output (Some ''home'')" "()" "''2024-01-01''" "''Team B''" "''Team A''"]
  by simp

section \<open>The match identity resolver\<close>

text \<open>
  C7. For a prediction whose match has no explicit identifier, a bet resolves to it
  exactly when the bet's \<open>matchId\<close> is the string "home_team-away_team-date" of the match,
  compared character by character.
\<close>

theorem fallback_key_resolution:
  assumes "match_id (match prediction) = None"
  shows "resolves prediction bet \<longleftrightarrow>
           matchId bet =
             home_team (match prediction) @ ''-'' @ away_team (match prediction) @ ''-'' @
             date (match prediction)"
  using assms by (auto simp add: resolves_def fallback_key_def)

theorem fallback_key_resolution_witness:
  "match_id (match (ex_prediction (ex_match None ''X'' ''Y'' ''2024-01-01T00:00:00.000Z'') 50 None)) = None \<and>
   resolves (ex_prediction (ex_match None ''X'' ''Y'' ''2024-01-01T00:00:00.000Z'') 50 None)
     (ex_bet ''X-Y-2024-01-01T00:00:00.000Z'' ''over_2_5'' 2) \<and>
   \<not> resolves (ex_prediction (ex_match None ''X'' ''Y'' ''2024-01-01T00:00:00.000Z'') 50 None)
     (ex_bet ''x-y-2024-01-01T00:00:00.000Z'' ''over_2_5'' 2)"
  using fallback_key_resolution [of "ex_prediction (ex_match None ''X'' ''Y'' ''2024-01-01T00:00:00.000Z'') 50 None"
      "ex_bet ''X-Y-2024-01-01T00:00:00.000Z'' ''over_2_5'' 2"]
    fallback_key_resolution [of "ex_prediction (ex_match None ''X'' ''Y'' ''2024-01-01T00:00:00.000Z'') 50 None"
      "ex_bet ''x-y-2024-01-01T00:00:00.000Z'' ''over_2_5'' 2"]
  by (simp add: ex_prediction_def ex_match_def ex_bet_def)

section \<open>The Prediction Store\<close>

subsection \<open>findIndex\<close>

lemma findIndex_from_absent:
  "(\<forall>x \<in> set xs. \<not> P x) \<Longrightarrow> findIndex_from i P xs = - 1"
  by (induction xs arbitrary: i) simp_all

lemma findIndex_from_first:
  "\<exists>x \<in> set xs. P x \<Longrightarrow>
     \<exists>k < length xs. findIndex_from i P xs = i + int k \<and> P (xs ! k) \<and> (\<forall>j < k. \<not> P (xs ! j))"
proof (induction xs arbitrary: i)
  case Nil
  then show ?case by simp
next
  case (Cons x xs)
  show ?case
  proof (cases "P x")
    case True
    then have "findIndex_from i P (x # xs) = i + int 0 \<and> P ((x # xs) ! 0) \<and>
        (\<forall>j < (0::nat). \<not> P ((x # xs) ! j))"
      by simp
    then show ?thesis by blast
  next
    case False
    with Cons.prems have "\<exists>y \<in> set xs. P y" by auto
    from Cons.IH [OF this, of "i + 1"] obtain k where k: "k < length xs"
      "findIndex_from (i + 1) P xs = i + 1 + int k" "P (xs ! k)" "\<forall>j < k. \<not> P (xs ! j)"
      by blast
    have "\<forall>j < Suc k. \<not> P ((x # xs) ! j)"
      using False k(4) by (auto simp add: nth_Cons split: nat.splits)
    with k False have "Suc k < length (x # xs) \<and>
        findIndex_from i P (x # xs) = i + int (Suc k) \<and> P ((x # xs) ! Suc k) \<and>
        (\<forall>j < Suc k. \<not> P ((x # xs) ! j))"
      by simp
    then show ?thesis by blast
  qed
qed

lemma findIndex_absent: "(\<forall>x \<in> set xs. \<not> P x) \<Longrightarrow> findIndex P xs = - 1"
  by (simp add: findIndex_def findIndex_from_absent)

lemma findIndex_first:
  assumes "\<exists>x \<in> set xs. P x"
  obtains k where "k < length xs" "findIndex P xs = int k" "P (xs ! k)" "\<forall>j < k. \<not> P (xs ! j)"
  using findIndex_from_first [OF assms, of 0] unfolding findIndex_def by auto

subsection \<open>The two paths of save\<close>

lemma save_found:
  assumes "\<exists>q \<in> set (savedPredictions st). same_fixture p q"
  obtains k where "k < length (savedPredictions st)"
    "same_fixture p (savedPredictions st ! k)"
    "\<forall>j < k. \<not> same_fixture p (savedPredictions st ! j)"
    "save p st = st\<lparr>savedPredictions := (savedPredictions st)[k := p]\<rparr>"
proof -
  from assms obtain k where k: "k < length (savedPredictions st)"
    "findIndex (same_fixture p) (savedPredictions st) = int k"
    "same_fixture p (savedPredictions st ! k)"
    "\<forall>j < k. \<not> same_fixture p (savedPredictions st ! j)"
    by (rule findIndex_first)
  have "save p st = st\<lparr>savedPredictions := (savedPredictions st)[k := p]\<rparr>"
    by (simp add: save_def handleSavePrediction_def Let_def k(2))
  with k that show thesis by blast
qed

lemma save_not_found:
  assumes "\<forall>q \<in> set (savedPredictions st). \<not> same_fixture p q"
  shows "save p st = st\<lparr>savedPredictions := savedPredictions st @ [p],
                        toasts := toasts st @ [''Prediction saved successfully!'']\<rparr>"
  using findIndex_absent [of "savedPredictions st" "same_fixture p"] assms
  by (simp add: save_def handleSavePrediction_def Let_def)

lemma save_member: "p \<in> set (savedPredictions (save p st))"
proof (cases "\<exists>q \<in> set (savedPredictions st). same_fixture p q")
  case True
  then obtain k where "k < length (savedPredictions st)"
    "save p st = st\<lparr>savedPredictions := (savedPredictions st)[k := p]\<rparr>"
    by (rule save_found)
  then show ?thesis by (simp add: set_update_memI)
next
  case False
  then show ?thesis by (simp add: save_not_found)
qed

lemma set_savedPredictions_save:
  "set (savedPredictions (save p st)) \<subseteq> insert p (set (savedPredictions st))"
proof (cases "\<exists>q \<in> set (savedPredictions st). same_fixture p q")
  case True
  then obtain k where "save p st = st\<lparr>savedPredictions := (savedPredictions st)[k := p]\<rparr>"
    by (rule save_found)
  then show ?thesis by (simp add: set_update_subset_insert)
next
  case False
  then show ?thesis by (auto simp add: save_not_found)
qed

lemma valueBets_state_save: "valueBets_state (save p st) = valueBets_state st"
  by (simp add: save_def handleSavePrediction_def Let_def)

text \<open>
  C4. \<open>save p\<close> either finds a record with the team names of \<open>p\<close> (both equal), writes \<open>p\<close>
  at the first such index and shows no notification, or finds none, appends \<open>p\<close> and shows
  the notification. In both cases \<open>p\<close> is stored afterwards, whatever its team names are,
  and the Value-Bet Store is untouched.
\<close>

theorem save_upsert:
  "((\<exists>q \<in> set (savedPredictions st). same_fixture p q) \<longrightarrow>
      (\<exists>k < length (savedPredictions st).
         same_fixture p (savedPredictions st ! k) \<and>
         (\<forall>j < k. \<not> same_fixture p (savedPredictions st ! j)) \<and>
         savedPredictions (save p st) = (savedPredictions st)[k := p]) \<and>
      toasts (save p st) = toasts st) \<and>
   (\<not> (\<exists>q \<in> set (savedPredictions st). same_fixture p q) \<longrightarrow>
      savedPredictions (save p st) = savedPredictions st @ [p] \<and>
      toasts (save p st) = toasts st @ [''Prediction saved successfully!'']) \<and>
   p \<in> set (savedPredictions (save p st)) \<and>
   valueBets_state (save p st) = valueBets_state st"
proof (cases "\<exists>q \<in> set (savedPredictions st). same_fixture p q")
  case True
  then obtain k where k: "k < length (savedPredictions st)"
    "same_fixture p (savedPredictions st ! k)"
    "\<forall>j < k. \<not> same_fixture p (savedPredictions st ! j)"
    "save p st = st\<lparr>savedPredictions := (savedPredictions st)[k := p]\<rparr>"
    by (rule save_found)
  have "p \<in> set ((savedPredictions st)[k := p])"
    using k(1) by (simp add: set_update_memI)
  with True k show ?thesis by auto
next
  case False
  then have "save p st = st\<lparr>savedPredictions := savedPredictions st @ [p],
      toasts := toasts st @ [''Prediction saved successfully!'']\<rparr>"
    by (simp add: save_not_found)
  with False show ?thesis by simp
qed

theorem save_upsert_witness:
  "savedPredictions (save p_ab_later two_predictions) = [p_ab_later, p_cd] \<and>
   toasts (save p_ab_later two_predictions) = [] \<and>
   savedPredictions (save p_noname two_predictions) = [p_ab, p_cd, p_noname] \<and>
   toasts (save p_noname two_predictions) = [''Prediction saved successfully!'']"
  using save_upsert [of two_predictions p_ab_later] save_upsert [of two_predictions p_noname]
  by (simp add: ex_defs op_defs)

subsection \<open>One record for a pair of teams\<close>

lemma save_keeps_pairs_distinct:
  assumes "distinct (map (\<lambda>q. (home_team (match q), away_team (match q))) (savedPredictions st))"
  shows "distinct (map (\<lambda>q. (home_team (match q), away_team (match q)))
           (savedPredictions (save p st)))"
proof (cases "\<exists>q \<in> set (savedPredictions st). same_fixture p q")
  case True
  then obtain k where k: "k < length (savedPredictions st)"
    "same_fixture p (savedPredictions st ! k)"
    "save p st = st\<lparr>savedPredictions := (savedPredictions st)[k := p]\<rparr>"
    by (rule save_found)
  let ?f = "\<lambda>q. (home_team (match q), away_team (match q))"
  have "?f p = map ?f (savedPredictions st) ! k"
    using k(1,2) by (simp add: same_fixture_def)
  then have "map ?f ((savedPredictions st)[k := p]) = map ?f (savedPredictions st)"
    by (simp only: map_update list_update_id)
  with assms k(3) show ?thesis by simp
next
  case False
  then have "save p st = st\<lparr>savedPredictions := savedPredictions st @ [p],
      toasts := toasts st @ [''Prediction saved successfully!'']\<rparr>"
    by (simp add: save_not_found)
  moreover from False have
    "(home_team (match p), away_team (match p)) \<notin>
       (\<lambda>q. (home_team (match q), away_team (match q))) ` set (savedPredictions st)"
    by (auto simp add: same_fixture_def)
  ultimately show ?thesis using assms by simp
qed

lemma run_saves_keeps_pairs_distinct:
  "distinct (map (\<lambda>q. (home_team (match q), away_team (match q))) (savedPredictions st)) \<Longrightarrow>
   distinct (map (\<lambda>q. (home_team (match q), away_team (match q)))
     (savedPredictions (run (map SavePrediction ps) st)))"
  by (induction ps arbitrary: st) (simp_all add: save_keeps_pairs_distinct)

lemma distinct_map_filter_le_1:
  "distinct (map f xs) \<Longrightarrow> length (filter (\<lambda>x. f x = k) xs) \<le> 1"
proof (induction xs)
  case Nil
  then show ?case by simp
next
  case (Cons x xs)
  show ?case
  proof (cases "f x = k")
    case True
    from Cons.prems have "f x \<notin> f ` set xs" by simp
    with True have "\<forall>y \<in> set xs. f y \<noteq> k" by blast
    then have "filter (\<lambda>x. f x = k) xs = []" by (simp add: filter_empty_conv)
    with True show ?thesis by simp
  next
    case False
    with Cons show ?thesis by simp
  qed
qed

lemma pairs_distinct_at_most_one:
  assumes "distinct (map (\<lambda>q. (home_team (match q), away_team (match q))) ps)"
  shows "length (filter (has_pair h a) ps) \<le> 1"
proof -
  have eq: "has_pair h a = (\<lambda>q. (home_team (match q), away_team (match q)) = (h, a))"
    by (auto simp add: has_pair_def fun_eq_iff)
  show ?thesis unfolding eq using assms by (rule distinct_map_filter_le_1)
qed

text \<open>
  C2. After any sequence of saves from the empty store, at most one record has a given
  pair of team names; and one more save of \<open>p\<close> leaves \<open>p\<close> as the only record with the
  pair of \<open>p\<close>: it replaces the earlier record and adds no second one.
\<close>

theorem prediction_store_one_record_per_pair:
  "length (filter (has_pair h a)
      (savedPredictions (run (map SavePrediction ps) initial_state))) \<le> 1 \<and>
   filter (has_pair (home_team (match p)) (away_team (match p)))
      (savedPredictions (save p (run (map SavePrediction ps) initial_state))) = [p]"
proof -
  let ?st = "run (map SavePrediction ps) (initial_state :: ('a, 'b) view_state)"
  let ?f = "\<lambda>q :: ('a, 'b) matchPrediction. (home_team (match q), away_team (match q))"
  have "distinct (map ?f (savedPredictions (initial_state :: ('a, 'b) view_state)))"
    by (simp add: initial_state_def)
  then have d: "distinct (map ?f (savedPredictions ?st))"
    by (rule run_saves_keeps_pairs_distinct)
  then have d': "distinct (map ?f (savedPredictions (save p ?st)))"
    by (rule save_keeps_pairs_distinct)
  let ?ys = "filter (has_pair (home_team (match p)) (away_team (match p)))
      (savedPredictions (save p ?st))"
  have "p \<in> set (savedPredictions (save p ?st))"
    by (rule save_member)
  then have "p \<in> set ?ys" by (simp add: has_pair_def)
  moreover have "length ?ys \<le> 1"
    using d' by (rule pairs_distinct_at_most_one)
  ultimately have "?ys = [p]"
    by (cases ?ys) auto
  moreover have "length (filter (has_pair h a) (savedPredictions ?st)) \<le> 1"
    using d by (rule pairs_distinct_at_most_one)
  ultimately show ?thesis by blast
qed

theorem prediction_store_one_record_per_pair_witness:
  "savedPredictions (run (map SavePrediction [p_ab, p_cd, p_ab_later]) initial_state)
     = [p_ab_later, p_cd] \<and>
   filter (has_pair ''A'' ''B'')
     (savedPredictions (run (map SavePrediction [p_ab, p_cd, p_ab_later]) initial_state))
     = [p_ab_later] \<and>
   filter (has_pair ''A'' ''B'')
     (savedPredictions (save p_ab (run (map SavePrediction [p_ab, p_cd, p_ab_later]) initial_state)))
     = [p_ab]"
  using prediction_store_one_record_per_pair [of "''A''" "''B''" "[p_ab, p_cd, p_ab_later]" p_ab]
  by (simp add: ex_defs op_defs)

section \<open>The Value-Bet Store and the propagation into predictions\<close>

lemma savedPredictions_saveValueBet:
  "savedPredictions (saveValueBet b st) = map (attach b) (savedPredictions st)"
  by (cases "savedPredictions st") (simp_all add: saveValueBet_def handleSaveValueBet_def Let_def)

lemma valueBets_state_saveValueBet:
  "valueBets_state (saveValueBet b st) = valueBets_state st @ [b]"
  by (simp add: saveValueBet_def handleSaveValueBet_def Let_def)

lemma savedPredictions_updateValueBet:
  "savedPredictions (updateValueBet b st) = map (reattach b) (savedPredictions st)"
  by (simp add: updateValueBet_def handleUpdateValueBet_def Let_def)

lemma valueBets_state_updateValueBet:
  "valueBets_state (updateValueBet b st) = map (replace_bet b) (valueBets_state st)"
  by (simp add: updateValueBet_def handleUpdateValueBet_def Let_def)

lemma valueBets_reattach:
  "valueBets (reattach b p) = map_option (map (replace_bet b)) (valueBets p)"
proof (cases "valueBets p")
  case None
  then show ?thesis by (simp add: reattach_def)
next
  case (Some vs)
  show ?thesis
  proof (cases "list_ex (same_key b) vs")
    case True
    with Some show ?thesis by (simp add: reattach_def)
  next
    case False
    then have "\<forall>e \<in> set vs. replace_bet b e = e"
      by (simp add: list_ex_iff replace_bet_def)
    then have "map (replace_bet b) vs = vs" by (simp add: map_idI)
    with Some False show ?thesis by (simp add: reattach_def)
  qed
qed

lemma valueBets_or_empty_reattach:
  "valueBets_or_empty (reattach b p) = map (replace_bet b) (valueBets_or_empty p)"
  by (cases "valueBets p") (simp_all add: valueBets_or_empty_def valueBets_reattach)

lemma same_key_replace_bet:
  "same_key b (replace_bet b e) \<Longrightarrow> replace_bet b e = b"
  by (simp add: replace_bet_def split: if_splits)

lemma same_but_valueBets_attach: "same_but_valueBets (attach b p) p"
  by (simp add: attach_def same_but_valueBets_def)

lemma same_but_valueBets_reattach: "same_but_valueBets (reattach b p) p"
  by (cases "valueBets p") (simp_all add: reattach_def same_but_valueBets_def Let_def)

text \<open>
  C5. \<open>saveValueBet b\<close> appends \<open>b\<close> to the Value-Bet Store and appends \<open>b\<close> to the embedded
  bets of every stored prediction that resolves to \<open>b\<close>, creating the sequence where it is
  absent; the other predictions stay as they are. With an empty Prediction Store only the
  Value-Bet Store changes, and a handler whose render saw no prediction skips the
  traversal.
\<close>

theorem saveValueBet_appends_and_attaches:
  "valueBets_state (saveValueBet b st) = valueBets_state st @ [b] \<and>
   length (savedPredictions (saveValueBet b st)) = length (savedPredictions st) \<and>
   (\<forall>i < length (savedPredictions st).
      savedPredictions (saveValueBet b st) ! i =
        (if resolves (savedPredictions st ! i) b
         then (savedPredictions st ! i)
                \<lparr>valueBets := Some ((case valueBets (savedPredictions st ! i) of
                                       None \<Rightarrow> [] | Some vs \<Rightarrow> vs) @ [b])\<rparr>
         else savedPredictions st ! i)) \<and>
   (savedPredictions st = [] \<longrightarrow>
      saveValueBet b st = st\<lparr>valueBets_state := valueBets_state st @ [b]\<rparr>) \<and>
   handleSaveValueBet [] b st = st\<lparr>valueBets_state := valueBets_state st @ [b]\<rparr> \<and>
   toasts (saveValueBet b st) = toasts st"
proof -
  have "\<forall>i < length (savedPredictions st).
      savedPredictions (saveValueBet b st) ! i =
        (if resolves (savedPredictions st ! i) b
         then (savedPredictions st ! i)
                \<lparr>valueBets := Some ((case valueBets (savedPredictions st ! i) of
                                       None \<Rightarrow> [] | Some vs \<Rightarrow> vs) @ [b])\<rparr>
         else savedPredictions st ! i)"
    by (simp add: savedPredictions_saveValueBet attach_def valueBets_or_empty_def)
  moreover have "savedPredictions st = [] \<longrightarrow>
      saveValueBet b st = st\<lparr>valueBets_state := valueBets_state st @ [b]\<rparr>"
    by (simp add: saveValueBet_def handleSaveValueBet_def Let_def)
  moreover have "handleSaveValueBet [] b st = st\<lparr>valueBets_state := valueBets_state st @ [b]\<rparr>"
    by (simp add: handleSaveValueBet_def Let_def)
  moreover have "toasts (saveValueBet b st) = toasts st"
    by (simp add: saveValueBet_def handleSaveValueBet_def Let_def)
  ultimately show ?thesis
    by (simp add: valueBets_state_saveValueBet savedPredictions_saveValueBet)
qed

theorem saveValueBet_appends_and_attaches_witness:
  "valueBets_state (saveValueBet bet_ab \<lparr>savedPredictions = [p_ab, p_cd, p_xy],
       valueBets_state = [bet_m7], toasts = []\<rparr>) = [bet_m7, bet_ab] \<and>
   savedPredictions (saveValueBet bet_ab \<lparr>savedPredictions = [p_ab, p_cd, p_xy],
       valueBets_state = [bet_m7], toasts = []\<rparr>)
     = [p_ab\<lparr>valueBets := Some [bet_ab]\<rparr>, p_cd, p_xy\<lparr>valueBets := Some [bet_ab]\<rparr>] \<and>
   saveValueBet bet_ab initial_state
     = \<lparr>savedPredictions = [], valueBets_state = [bet_ab], toasts = []\<rparr>"
  using saveValueBet_appends_and_attaches [of bet_ab "\<lparr>savedPredictions = [p_ab, p_cd, p_xy],
       valueBets_state = [bet_m7], toasts = []\<rparr>"]
    saveValueBet_appends_and_attaches [of bet_ab initial_state]
  by (simp add: ex_defs ex_defs2 op_defs)

text \<open>
  C3, as the specification states it, fails: in a store that holds two bets with the key
  of the updated bet, the second of them is replaced as well.
\<close>

theorem updateValueBet_first_only_counterexample:
  "valueBets_state duplicate_key_state = [bet_ab, bet_ab_dup, bet_m7] \<and>
   same_key bet_ab_updated bet_ab \<and> same_key bet_ab_updated bet_ab_dup \<and>
   bet_ab_dup \<noteq> bet_ab_updated \<and>
   valueBets_state (updateValueBet bet_ab_updated duplicate_key_state) ! 1 = bet_ab_updated \<and>
   valueBets_state (updateValueBet bet_ab_updated duplicate_key_state)
     \<noteq> [bet_ab_updated, bet_ab_dup, bet_m7]"
  by (simp add: ex_defs ex_defs2 op_defs)

text \<open>
  C3, amended. \<open>updateValueBet b\<close> replaces every bet of the Value-Bet Store that has the
  key of \<open>b\<close> and keeps the others, in place; when no bet has that key the store is
  unchanged and nothing is inserted. In either case the traversal of the Prediction Store
  runs: in every prediction that carries bets, the embedded bets with the key of \<open>b\<close> are
  replaced by \<open>b\<close>.
\<close>

theorem updateValueBet_replaces_every_match:
  "length (valueBets_state (updateValueBet b st)) = length (valueBets_state st) \<and>
   (\<forall>i < length (valueBets_state st).
      valueBets_state (updateValueBet b st) ! i =
        (if same_key b (valueBets_state st ! i) then b else valueBets_state st ! i)) \<and>
   ((\<forall>e \<in> set (valueBets_state st). \<not> same_key b e) \<longrightarrow>
      valueBets_state (updateValueBet b st) = valueBets_state st) \<and>
   length (savedPredictions (updateValueBet b st)) = length (savedPredictions st) \<and>
   (\<forall>i < length (savedPredictions st).
      valueBets (savedPredictions (updateValueBet b st) ! i) =
        map_option (map (\<lambda>e. if same_key b e then b else e))
          (valueBets (savedPredictions st ! i)))"
proof -
  have r: "replace_bet b = (\<lambda>e. if same_key b e then b else e)"
    by (simp add: fun_eq_iff replace_bet_def)
  have "(\<forall>e \<in> set (valueBets_state st). \<not> same_key b e) \<longrightarrow>
      valueBets_state (updateValueBet b st) = valueBets_state st"
    by (simp add: valueBets_state_updateValueBet replace_bet_def map_idI)
  moreover have "\<forall>i < length (savedPredictions st).
      valueBets (savedPredictions (updateValueBet b st) ! i) =
        map_option (map (\<lambda>e. if same_key b e then b else e))
          (valueBets (savedPredictions st ! i))"
    by (simp add: savedPredictions_updateValueBet valueBets_reattach r)
  ultimately show ?thesis
    by (simp add: valueBets_state_updateValueBet savedPredictions_updateValueBet replace_bet_def)
qed

theorem updateValueBet_replaces_every_match_witness:
  "valueBets_state (updateValueBet bet_ab_updated duplicate_key_state)
     = [bet_ab_updated, bet_ab_updated, bet_m7] \<and>
   map valueBets (savedPredictions (updateValueBet bet_ab_updated duplicate_key_state))
     = [Some [bet_ab_updated, bet_ab_updated]] \<and>
   valueBets_state (updateValueBet bet_unknown duplicate_key_state)
     = valueBets_state duplicate_key_state \<and>
   savedPredictions (updateValueBet bet_unknown duplicate_key_state)
     = savedPredictions duplicate_key_state"
  using updateValueBet_replaces_every_match [of bet_ab_updated duplicate_key_state]
    updateValueBet_replaces_every_match [of bet_unknown duplicate_key_state]
  by (simp add: ex_defs ex_defs2 op_defs)

text \<open>
  C6. When the Value-Bet Store holds a bet with the key of \<open>b\<close>, then after
  \<open>updateValueBet b\<close> the store holds \<open>b\<close>, and every bet with that key, in the store and
  among the embedded bets of every prediction, is \<open>b\<close>.
\<close>

theorem update_coherence:
  assumes "\<exists>e \<in> set (valueBets_state st). same_key b e"
  shows "b \<in> set (valueBets_state (updateValueBet b st)) \<and>
         (\<forall>e \<in> set (valueBets_state (updateValueBet b st)). same_key b e \<longrightarrow> e = b) \<and>
         (\<forall>p \<in> set (savedPredictions (updateValueBet b st)).
            \<forall>e \<in> set (valueBets_or_empty p). same_key b e \<longrightarrow> e = b)"
proof -
  from assms obtain e where e: "e \<in> set (valueBets_state st)" "same_key b e" by blast
  then have "replace_bet b e = b" by (simp add: replace_bet_def)
  with e(1) have "b \<in> replace_bet b ` set (valueBets_state st)" by (metis imageI)
  then have "b \<in> set (valueBets_state (updateValueBet b st))"
    by (simp add: valueBets_state_updateValueBet)
  moreover have "\<forall>e \<in> set (valueBets_state (updateValueBet b st)). same_key b e \<longrightarrow> e = b"
    by (auto simp add: valueBets_state_updateValueBet same_key_replace_bet)
  moreover have "\<forall>p \<in> set (savedPredictions (updateValueBet b st)).
      \<forall>e \<in> set (valueBets_or_empty p). same_key b e \<longrightarrow> e = b"
    by (auto simp add: savedPredictions_updateValueBet valueBets_or_empty_reattach
        same_key_replace_bet)
  ultimately show ?thesis by blast
qed

theorem update_coherence_witness:
  "list_ex (same_key bet_ab_updated) (valueBets_state duplicate_key_state) \<and>
   filter (same_key bet_ab_updated)
     (valueBets_state (updateValueBet bet_ab_updated duplicate_key_state))
     = [bet_ab_updated, bet_ab_updated] \<and>
   map (\<lambda>p. filter (same_key bet_ab_updated) (valueBets_or_empty p))
     (savedPredictions (updateValueBet bet_ab_updated duplicate_key_state))
     = [[bet_ab_updated, bet_ab_updated]]"
  using update_coherence [of duplicate_key_state bet_ab_updated]
  by (simp add: ex_defs ex_defs2 op_defs)

text \<open>
  C10. \<open>saveValueBet\<close> and \<open>updateValueBet\<close> keep the length and the order of the
  Prediction Store, and every stored prediction keeps its match, predicted result,
  confidence level, predicted score, patterns, half-time/full-time analysis and
  head-to-head record: only \<open>valueBets\<close> may change.
\<close>

theorem bet_operations_frame:
  "length (savedPredictions (saveValueBet b st)) = length (savedPredictions st) \<and>
   length (savedPredictions (updateValueBet b st)) = length (savedPredictions st) \<and>
   (\<forall>i < length (savedPredictions st).
      same_but_valueBets (savedPredictions (saveValueBet b st) ! i) (savedPredictions st ! i) \<and>
      same_but_valueBets (savedPredictions (updateValueBet b st) ! i) (savedPredictions st ! i))"
  by (simp add: savedPredictions_saveValueBet savedPredictions_updateValueBet
      same_but_valueBets_attach same_but_valueBets_reattach)

theorem bet_operations_frame_witness:
  "same_but_valueBets (savedPredictions (saveValueBet bet_ab two_predictions) ! 0) p_ab \<and>
   valueBets (savedPredictions (saveValueBet bet_ab two_predictions) ! 0) = Some [bet_ab] \<and>
   savedPredictions (saveValueBet bet_ab two_predictions) ! 1 = p_cd \<and>
   same_but_valueBets
     (savedPredictions (updateValueBet bet_ab_updated duplicate_key_state) ! 0) p_ab \<and>
   length (savedPredictions (updateValueBet bet_ab_updated duplicate_key_state)) = 1"
  using bet_operations_frame [of bet_ab two_predictions]
    bet_operations_frame [of bet_ab_updated duplicate_key_state]
  by (simp add: ex_defs ex_defs2 op_defs same_but_valueBets_def)

section \<open>Propagation completeness\<close>

text \<open>
  C1, as the specification states it, fails: a bet added while the Prediction Store is
  empty is not embedded in a prediction that is saved afterwards and resolves to it.
\<close>

theorem propagation_completeness_counterexample:
  "\<not> propagated (run [SaveValueBet bet_ab, SavePrediction p_ab] initial_state)"
  by (simp add: propagated_def ex_defs ex_defs2 op_defs)

text \<open>
  Two more ways to lose completeness: a later save of the same fixture replaces the record
  together with its embedded bets, and two added bets with one key are both embedded.
\<close>

lemma propagation_lost_on_replacement:
  "\<not> propagated (run [SavePrediction p_ab, SaveValueBet bet_ab, SavePrediction p_ab] initial_state)"
  by (simp add: propagated_def ex_defs ex_defs2 op_defs)

lemma propagation_twice_for_one_key:
  "\<not> propagated (run [SavePrediction p_ab, SaveValueBet bet_ab, SaveValueBet bet_ab_dup] initial_state)"
  by (simp add: propagated_def ex_defs ex_defs2 op_defs)

lemma same_key_bet_key: "same_key b e \<longleftrightarrow> bet_key e = bet_key b"
  by (simp add: same_key_def bet_key_def)

lemma resolves_attach: "resolves (attach b p) b' = resolves p b'"
  by (simp add: attach_def resolves_def)

lemma valueBets_or_empty_attach:
  "valueBets_or_empty (attach b p) =
     (if resolves p b then valueBets_or_empty p @ [b] else valueBets_or_empty p)"
  by (simp add: attach_def valueBets_or_empty_def)

lemma attached_invariant_save:
  assumes inv: "attached_invariant st"
    and none: "valueBets_or_empty p = []"
    and unresolved: "\<forall>b \<in> set (valueBets_state st). \<not> resolves p b"
  shows "attached_invariant (save p st)"
proof -
  have "q = p \<or> q \<in> set (savedPredictions st)" if "q \<in> set (savedPredictions (save p st))" for q
    using that set_savedPredictions_save [of p st] by blast
  with inv none unresolved show ?thesis
    unfolding attached_invariant_def valueBets_state_save by fastforce
qed

lemma attached_invariant_saveValueBet:
  assumes inv: "attached_invariant st"
    and fresh: "\<forall>e \<in> set (valueBets_state st). \<not> same_key b e"
  shows "attached_invariant (saveValueBet b st)"
proof -
  have key: "bet_key b \<notin> bet_key ` set (valueBets_state st)"
    using fresh by (auto simp add: same_key_bet_key)
  then have b: "b \<notin> set (valueBets_state st)" by blast
  have "distinct (map bet_key (valueBets_state st @ [b]))"
    using inv key by (simp add: attached_invariant_def)
  moreover have "set (valueBets_or_empty (attach b p)) \<subseteq> set (valueBets_state st @ [b]) \<and>
      distinct (valueBets_or_empty (attach b p)) \<and>
      (\<forall>b' \<in> set (valueBets_state st @ [b]).
         resolves (attach b p) b' \<longrightarrow> b' \<in> set (valueBets_or_empty (attach b p)))"
    if p: "p \<in> set (savedPredictions st)" for p
  proof -
    from inv p have sub: "set (valueBets_or_empty p) \<subseteq> set (valueBets_state st)"
      and dist: "distinct (valueBets_or_empty p)"
      and res: "\<forall>b' \<in> set (valueBets_state st). resolves p b' \<longrightarrow> b' \<in> set (valueBets_or_empty p)"
      by (simp_all add: attached_invariant_def)
    from sub b have "b \<notin> set (valueBets_or_empty p)" by blast
    with sub dist res show ?thesis
      by (auto simp add: valueBets_or_empty_attach resolves_attach)
  qed
  ultimately show ?thesis
    by (simp add: attached_invariant_def valueBets_state_saveValueBet
        savedPredictions_saveValueBet)
qed

lemma attached_invariant_run:
  "attached_invariant st \<Longrightarrow> admissible (valueBets_state st) es \<Longrightarrow>
   attached_invariant (run es st)"
proof (induction es arbitrary: st)
  case Nil
  then show ?case by simp
next
  case (Cons e es)
  show ?case
  proof (cases e)
    case (SavePrediction p)
    with Cons.prems have "attached_invariant (save p st)"
      by (simp add: attached_invariant_save)
    moreover from SavePrediction Cons.prems have "admissible (valueBets_state (save p st)) es"
      by (simp add: valueBets_state_save)
    ultimately have "attached_invariant (run es (save p st))" by (rule Cons.IH)
    with SavePrediction show ?thesis by simp
  next
    case (SaveValueBet b)
    with Cons.prems have "attached_invariant (saveValueBet b st)"
      by (simp add: attached_invariant_saveValueBet)
    moreover from SaveValueBet Cons.prems
    have "admissible (valueBets_state (saveValueBet b st)) es"
      by (simp add: valueBets_state_saveValueBet)
    ultimately have "attached_invariant (run es (saveValueBet b st))" by (rule Cons.IH)
    with SaveValueBet show ?thesis by simp
  qed
qed

lemma filter_eq_distinct_member:
  "distinct xs \<Longrightarrow> b \<in> set xs \<Longrightarrow> filter (\<lambda>e. e = b) xs = [b]"
  by (induction xs) (auto simp add: filter_empty_conv)

lemma attached_invariant_propagated:
  assumes "attached_invariant st"
  shows "propagated st"
  unfolding propagated_def
proof (intro ballI impI)
  fix p b
  assume p: "p \<in> set (savedPredictions st)" and b: "b \<in> set (valueBets_state st)"
    and r: "resolves p b"
  from assms p have sub: "set (valueBets_or_empty p) \<subseteq> set (valueBets_state st)"
    and dist: "distinct (valueBets_or_empty p)"
    and res: "\<forall>b' \<in> set (valueBets_state st). resolves p b' \<longrightarrow> b' \<in> set (valueBets_or_empty p)"
    by (simp_all add: attached_invariant_def)
  from assms have "inj_on bet_key (set (valueBets_state st))"
    by (simp add: attached_invariant_def distinct_map)
  with sub b have "\<forall>e \<in> set (valueBets_or_empty p). same_key b e \<longleftrightarrow> e = b"
    by (auto simp add: same_key_bet_key dest: inj_onD)
  then have "filter (same_key b) (valueBets_or_empty p) = filter (\<lambda>e. e = b) (valueBets_or_empty p)"
    by (simp cong: filter_cong)
  moreover from res b r have m: "b \<in> set (valueBets_or_empty p)" by blast
  ultimately have "filter (same_key b) (valueBets_or_empty p) = [b]"
    using dist by (simp add: filter_eq_distinct_member)
  with m show "b \<in> set (valueBets_or_empty p) \<and>
      length (filter (same_key b) (valueBets_or_empty p)) = 1"
    by simp
qed

text \<open>
  C1, amended. For a sequence of saves of predictions and additions of bets from the
  empty stores in which every saved prediction carries no bets, no prediction is saved
  after a bet that it resolves to, and no two added bets have the same key: afterwards
  every bet of the Value-Bet Store that resolves to a stored prediction is embedded in
  that prediction, and exactly one embedded bet has its key.
\<close>

theorem propagation_completeness_admissible:
  fixes es :: "('a, 'b) event list"
  assumes "admissible [] es"
  shows "propagated (run es initial_state)"
proof -
  have "attached_invariant (initial_state :: ('a, 'b) view_state)"
    by (simp add: attached_invariant_def initial_state_def)
  moreover have "admissible (valueBets_state (initial_state :: ('a, 'b) view_state)) es"
    using assms by (simp add: initial_state_def)
  ultimately have "attached_invariant (run es initial_state)"
    by (rule attached_invariant_run)
  then show ?thesis by (rule attached_invariant_propagated)
qed

theorem propagation_completeness_admissible_witness:
  "admissible [] [SavePrediction p_cd, SaveValueBet bet_m7, SavePrediction p_ab,
      SavePrediction p_xy, SaveValueBet bet_ab, SaveValueBet bet_unknown] \<and>
   propagated (run [SavePrediction p_cd, SaveValueBet bet_m7, SavePrediction p_ab,
      SavePrediction p_xy, SaveValueBet bet_ab, SaveValueBet bet_unknown] initial_state) \<and>
   map valueBets_or_empty (savedPredictions (run [SavePrediction p_cd, SaveValueBet bet_m7, SavePrediction p_ab,
      SavePrediction p_xy, SaveValueBet bet_ab, SaveValueBet bet_unknown] initial_state))
     = [[bet_m7], [bet_ab], [bet_ab]]"
  using propagation_completeness_admissible [of "[SavePrediction p_cd, SaveValueBet bet_m7, SavePrediction p_ab,
      SavePrediction p_xy, SaveValueBet bet_ab, SaveValueBet bet_unknown]"]
  by (simp add: ex_defs ex_defs2 op_defs)

end
